theory Spec2Isabelle
  imports Complex_Main "HOL-Library.Sublist"
begin

section \<open>Configuration constants\<close>

text \<open>
  The constants of \<^verbatim>\<open>CIRCUIT_BREAKER\<close>, \<^verbatim>\<open>GENERATION_CONFIG\<close> and
  \<^verbatim>\<open>CONTENT_TARGETS\<close> that the orchestration engine reads.
\<close>

definition FAILURE_THRESHOLD :: nat where
  "FAILURE_THRESHOLD = 3"

definition RESET_TIMEOUT :: int where
  "RESET_TIMEOUT = 60000"

definition MAX_ATTEMPTS :: nat where
  "MAX_ATTEMPTS = 3"

definition MIN_ACCEPTABLE_WORDS :: rat where
  "MIN_ACCEPTABLE_WORDS = 2500"

section \<open>Backoff calculator\<close>










section \<open>Circuit breaker registry\<close>

record CircuitBreakerState =
  failures :: nat
  lastFailure :: int
  isOpen :: bool
  provider :: string

type_synonym registry = "string \<rightharpoonup> CircuitBreakerState"

text \<open>
  \<^verbatim>\<open>getCircuitBreaker\<close> creates the entry of a provider on first use. The module-level map
  \<^verbatim>\<open>circuitBreakers\<close> is passed in and returned; \<^verbatim>\<open>Date.now()\<close> is the argument \<open>now\<close>.
\<close>

definition fresh :: "string \<Rightarrow> CircuitBreakerState" where
  "fresh p = \<lparr>failures = 0, lastFailure = 0, isOpen = False, provider = p\<rparr>"

definition getCircuitBreaker :: "string \<Rightarrow> registry \<Rightarrow> CircuitBreakerState \<times> registry" where
  "getCircuitBreaker p reg =
     (case reg p of
        None \<Rightarrow> (fresh p, reg(p \<mapsto> fresh p))
      | Some b \<Rightarrow> (b, reg))"

definition recordFailure :: "string \<Rightarrow> int \<Rightarrow> registry \<Rightarrow> registry" where
  "recordFailure p now reg =
     (let (breaker, reg1) = getCircuitBreaker p reg;
          b1 = breaker\<lparr>failures := failures breaker + 1\<rparr>;
          b2 = b1\<lparr>lastFailure := now\<rparr>;
          b3 = (if failures b2 \<ge> FAILURE_THRESHOLD then b2\<lparr>isOpen := True\<rparr> else b2)
      in reg1(p \<mapsto> b3))"

definition recordSuccess :: "string \<Rightarrow> registry \<Rightarrow> registry" where
  "recordSuccess p reg =
     (let (breaker, reg1) = getCircuitBreaker p reg
      in reg1(p \<mapsto> breaker\<lparr>failures := 0, isOpen := False\<rparr>))"

definition isCircuitOpen :: "string \<Rightarrow> int \<Rightarrow> registry \<Rightarrow> bool \<times> registry" where
  "isCircuitOpen p now reg =
     (let (breaker, reg1) = getCircuitBreaker p reg
      in if \<not> isOpen breaker then (False, reg1)
         else if now - lastFailure breaker > RESET_TIMEOUT then (False, reg1)
         else (True, reg1))"

text \<open>The breaker of a provider as the next \<^verbatim>\<open>getCircuitBreaker\<close> would return it.\<close>

definition breaker_of :: "registry \<Rightarrow> string \<Rightarrow> CircuitBreakerState" where
  "breaker_of reg p = fst (getCircuitBreaker p reg)"

text \<open>
  A history of bookkeeping calls: each is \<^verbatim>\<open>recordFailure\<close> (with the clock reading) or
  \<^verbatim>\<open>recordSuccess\<close>, for some provider.
\<close>

datatype breaker_op = Failure int | Success

fun apply_op :: "registry \<Rightarrow> string \<times> breaker_op \<Rightarrow> registry" where
  "apply_op reg (p, Failure now) = recordFailure p now reg"
| "apply_op reg (p, Success) = recordSuccess p reg"

definition run_ops :: "(string \<times> breaker_op) list \<Rightarrow> registry \<Rightarrow> registry" where
  "run_ops ops reg = foldl apply_op reg ops"

text \<open>The failures recorded for \<open>p\<close> since its last recorded success.\<close>

fun streak_step :: "string \<Rightarrow> nat \<Rightarrow> string \<times> breaker_op \<Rightarrow> nat" where
  "streak_step p c (q, Failure now) = (if q = p then c + 1 else c)"
| "streak_step p c (q, Success) = (if q = p then 0 else c)"

definition streak :: "string \<Rightarrow> (string \<times> breaker_op) list \<Rightarrow> nat" where
  "streak p ops = foldl (streak_step p) 0 ops"

section \<open>String helpers\<close>

text \<open>
  \<^verbatim>\<open>String.prototype.includes\<close>: the needle occurs as a contiguous run of the text.
\<close>

fun js_includes :: "string \<Rightarrow> string \<Rightarrow> bool" where
  "js_includes [] needle = (needle = [])"
| "js_includes (c # cs) needle = (prefix needle (c # cs) \<or> js_includes cs needle)"

text \<open>The decimal rendering of a non-negative integer inside a template literal.\<close>

definition digit_char :: "nat \<Rightarrow> char" where
  "digit_char d = ''0123456789'' ! d"

fun string_of_nat :: "nat \<Rightarrow> string" where
  "string_of_nat n =
     (if n < 10 then [digit_char n]
      else string_of_nat (n div 10) @ [digit_char (n mod 10)])"

declare string_of_nat.simps [simp del]

section \<open>Provider gateway\<close>

text \<open>
  A thrown JavaScript error, with its \<^verbatim>\<open>name\<close> and \<^verbatim>\<open>message\<close>. \<^verbatim>\<open>new Error(m)\<close> has the name
  \<^verbatim>\<open>Error\<close>; an aborted \<^verbatim>\<open>fetch\<close> rejects with the name \<^verbatim>\<open>AbortError\<close>.
\<close>

datatype js_error = JsError (err_name: string) (err_message: string)

definition Error :: "string \<Rightarrow> js_error" where
  "Error m = JsError ''Error'' m"

text \<open>
  What the network gives an adapter: a response with its HTTP status and the text the adapter
  reads out of the body, or a rejection of \<^verbatim>\<open>fetch\<close> (abort, network failure). For the Google
  adapter, which goes through the vendor SDK, a rejection is whatever the SDK throws and a
  response is a completed SDK call.
\<close>

datatype reply = Response nat string | Rejected js_error

definition response_ok :: "nat \<Rightarrow> bool" where
  "response_ok status = (200 \<le> status \<and> status \<le> 299)"

definition fetch_adapter :: "string \<Rightarrow> reply \<Rightarrow> js_error + string" where
  "fetch_adapter label r =
     (case r of
        Rejected e \<Rightarrow> Inl e
      | Response status content \<Rightarrow>
          if \<not> response_ok status
          then Inl (Error (label @ '' error '' @ string_of_nat status))
          else Inr content)"

definition callGemini :: "reply \<Rightarrow> js_error + string" where
  "callGemini r = (case r of Rejected e \<Rightarrow> Inl e | Response status content \<Rightarrow> Inr content)"

definition callOpenRouter :: "reply \<Rightarrow> js_error + string" where
  "callOpenRouter = fetch_adapter ''OpenRouter''"

definition callOpenAI :: "reply \<Rightarrow> js_error + string" where
  "callOpenAI = fetch_adapter ''OpenAI''"

definition callAnthropic :: "reply \<Rightarrow> js_error + string" where
  "callAnthropic = fetch_adapter ''Anthropic''"

definition callGroq :: "reply \<Rightarrow> js_error + string" where
  "callGroq = fetch_adapter ''Groq''"

text \<open>The \<^verbatim>\<open>switch (provider)\<close> of \<^verbatim>\<open>callLLM\<close>; \<open>None\<close> is its \<^verbatim>\<open>default\<close> branch.\<close>

definition adapter_of :: "string \<Rightarrow> (reply \<Rightarrow> js_error + string) option" where
  "adapter_of p =
     (if p = ''google'' then Some callGemini
      else if p = ''openrouter'' then Some callOpenRouter
      else if p = ''openai'' then Some callOpenAI
      else if p = ''anthropic'' then Some callAnthropic
      else if p = ''groq'' then Some callGroq
      else None)"

text \<open>
  \<^verbatim>\<open>callLLM\<close> in two halves. \<open>callLLM_begin\<close> is the part that runs synchronously when the
  function is called: the breaker check. \<open>callLLM_settle\<close> is the \<^verbatim>\<open>try\<close>/\<^verbatim>\<open>catch\<close> around the
  adapter, which runs when the awaited adapter call settles (or at once, for an unknown
  provider). Between the two halves of one call other calls may begin: the section batches
  start two calls before either settles. The prompts, model name, keys, temperature and token
  limit are only handed on to the adapter.
\<close>

definition callLLM_begin :: "string \<Rightarrow> int \<Rightarrow> registry \<Rightarrow> (js_error + unit) \<times> registry" where
  "callLLM_begin p now reg =
     (let (is_open, reg1) = isCircuitOpen p now reg
      in if is_open then (Inl (Error (''Circuit breaker OPEN for '' @ p)), reg1)
         else (Inr (), reg1))"

definition transient_message :: "string \<Rightarrow> bool" where
  "transient_message m = (js_includes m ''429'' \<or> js_includes m ''500'' \<or> js_includes m ''503'')"

definition callLLM_catch :: "string \<Rightarrow> nat \<Rightarrow> int \<Rightarrow> js_error \<Rightarrow> registry \<Rightarrow> (js_error + string) \<times> registry" where
  "callLLM_catch p timeoutMs now error reg =
     (if err_name error = ''AbortError''
      then (Inl (Error (''Request timeout after '' @ string_of_nat timeoutMs @ ''ms'')),
            recordFailure p now reg)
      else if transient_message (err_message error)
      then (Inl error, recordFailure p now reg)
      else (Inl error, reg))"

definition callLLM_settle :: "string \<Rightarrow> nat \<Rightarrow> int \<Rightarrow> reply \<Rightarrow> registry \<Rightarrow> (js_error + string) \<times> registry" where
  "callLLM_settle p timeoutMs now r reg =
     (case adapter_of p of
        None \<Rightarrow> callLLM_catch p timeoutMs now (Error (''Unknown provider: '' @ p)) reg
      | Some call \<Rightarrow>
          (case call r of
             Inr response \<Rightarrow> (Inr response, recordSuccess p reg)
           | Inl error \<Rightarrow> callLLM_catch p timeoutMs now error reg))"

text \<open>
  A whole call: \<open>t0\<close> is the clock at the breaker check, \<open>t1\<close> the clock when the adapter
  settles. The third component lists the adapters that were invoked.
\<close>

definition callLLM ::
  "string \<Rightarrow> nat \<Rightarrow> reply \<Rightarrow> int \<Rightarrow> int \<Rightarrow> registry \<Rightarrow> (js_error + string) \<times> registry \<times> string list" where
  "callLLM p timeoutMs r t0 t1 reg =
     (case callLLM_begin p t0 reg of
        (Inl e, reg1) \<Rightarrow> (Inl e, reg1, [])
      | (Inr u, reg1) \<Rightarrow>
          (let (res, reg2) = callLLM_settle p timeoutMs t1 r reg1
           in (res, reg2, (case adapter_of p of None \<Rightarrow> [] | Some call \<Rightarrow> [p]))))"

text \<open>A registry in which three failures of \<^verbatim>\<open>openai\<close> were recorded at time 0.\<close>

definition three_failures :: registry where
  "three_failures =
     run_ops [(''openai'', Failure 0), (''openai'', Failure 0), (''openai'', Failure 0)] Map.empty"

section \<open>Text utilities of the healer\<close>

text \<open>
  Strings are lists of code units below 256. \<open>is_space\<close> is the class \<^verbatim>\<open>\s\<close> of JavaScript
  regular expressions on that range (tab, line feed, vertical tab, form feed, carriage
  return, space, no-break space), which is also what \<^verbatim>\<open>trim()\<close> removes.
\<close>

definition is_space :: "char \<Rightarrow> bool" where
  "is_space c = (c \<in> {CHR 0x09, CHR 0x0A, CHR 0x0B, CHR 0x0C, CHR 0x0D, CHR '' '', CHR 0xA0})"

definition trim :: "string \<Rightarrow> string" where
  "trim s = rev (dropWhile is_space (rev (dropWhile is_space s)))"

text \<open>
  The text before and after the first occurrence of a needle; \<open>None\<close> when it does not occur.
\<close>

fun split_at_first :: "string \<Rightarrow> string \<Rightarrow> (string \<times> string) option" where
  "split_at_first needle [] = (if needle = [] then Some ([], []) else None)"
| "split_at_first needle (c # cs) =
     (if prefix needle (c # cs) then Some ([], drop (length needle) (c # cs))
      else (case split_at_first needle cs of
              None \<Rightarrow> None
            | Some (before, after) \<Rightarrow> Some (c # before, after)))"

text \<open>
  \<^verbatim>\<open>countWords\<close>: tags \<^verbatim>\<open><[^>]*>\<close> become a space (a \<^verbatim>\<open><\<close> with no \<^verbatim>\<open>>\<close> after it stays),
  then the maximal runs of non-space characters are counted.
\<close>

function strip_tags :: "string \<Rightarrow> string" where
  "strip_tags [] = []"
| "strip_tags (c # cs) =
     (if c = CHR ''<'' \<and> CHR ''>'' \<in> set cs
      then CHR '' '' # strip_tags (tl (dropWhile (\<lambda>x. x \<noteq> CHR ''>'') cs))
      else c # strip_tags cs)"
  by pat_completeness auto
termination
proof (relation "measure length")
  show "wf (measure length)"
    by simp
next
  fix c :: char and cs :: string
  have "length (dropWhile (\<lambda>x. x \<noteq> CHR ''>'') cs) \<le> length cs"
    by (rule length_dropWhile_le)
  then show "(tl (dropWhile (\<lambda>x. x \<noteq> CHR ''>'') cs), c # cs) \<in> measure length"
    by simp
next
  fix c :: char and cs :: string
  show "(cs, c # cs) \<in> measure length"
    by simp
qed

fun count_runs :: "bool \<Rightarrow> string \<Rightarrow> nat" where
  "count_runs in_word [] = 0"
| "count_runs in_word (c # cs) =
     (if is_space c then count_runs False cs
      else (if in_word then 0 else 1) + count_runs True cs)"

definition countWords :: "string \<Rightarrow> nat" where
  "countWords txt = (if txt = [] then 0 else count_runs False (strip_tags txt))"

section \<open>Parsed JSON\<close>

text \<open>
  The values \<^verbatim>\<open>JSON.parse\<close> returns. \<^verbatim>\<open>JSON.parse\<close> itself belongs to the platform: it is the
  parameter \<open>parse\<close> of everything below, with \<open>None\<close> for a thrown \<^verbatim>\<open>SyntaxError\<close>. The keys of
  a parsed object are distinct.
\<close>

datatype json =
    JNull
  | JBool bool
  | JNumber rat
  | JString string
  | JArray "json list"
  | JObject "(string \<times> json) list"

fun truthy :: "json \<Rightarrow> bool" where
  "truthy JNull = False"
| "truthy (JBool b) = b"
| "truthy (JNumber n) = (n \<noteq> 0)"
| "truthy (JString s) = (s \<noteq> [])"
| "truthy (JArray xs) = True"
| "truthy (JObject kvs) = True"

fun field :: "json \<Rightarrow> string \<Rightarrow> json option" where
  "field (JObject kvs) k = map_of kvs k"
| "field j k = None"

text \<open>
  The test \<^verbatim>\<open>if (parsed.htmlContent)\<close>. Reading the property of \<^verbatim>\<open>null\<close> throws inside the
  \<^verbatim>\<open>try\<close>, on any other value without that key it is \<^verbatim>\<open>undefined\<close>: the strategy fails
  either way.
\<close>

definition has_body :: "json \<Rightarrow> bool" where
  "has_body parsed = (case field parsed ''htmlContent'' of None \<Rightarrow> False | Some v \<Rightarrow> truthy v)"

definition try_parse :: "(string \<Rightarrow> json option) \<Rightarrow> string \<Rightarrow> json option" where
  "try_parse parse candidate =
     (case parse candidate of
        None \<Rightarrow> None
      | Some parsed \<Rightarrow> if has_body parsed then Some parsed else None)"

section \<open>Response validation\<close>

datatype truncation_type = TJson | TContent | TNone

record completeness =
  isComplete :: bool
  wasTruncated :: bool
  truncationType :: truncation_type
  details :: string

definition string_of_int :: "int \<Rightarrow> string" where
  "string_of_int i = (if i < 0 then ''-'' @ string_of_nat (nat (- i)) else string_of_nat (nat i))"

text \<open>
  \<^verbatim>\<open>validateResponseCompleteness\<close>; \<open>wasTruncated\<close> is the field \<^verbatim>\<open>isTruncated\<close> of its result.
\<close>

definition validateResponseCompleteness :: "string \<Rightarrow> completeness" where
  "validateResponseCompleteness responseText =
     (if trim responseText = []
      then \<lparr>isComplete = False, wasTruncated = False, truncationType = TNone,
            details = ''Empty response''\<rparr>
      else
        let trimmed = trim responseText;
            openBraces = count_list trimmed CHR ''{'';
            closeBraces = count_list trimmed CHR ''}'';
            openBrackets = count_list trimmed CHR ''['';
            closeBrackets = count_list trimmed CHR '']''
        in if closeBraces < openBraces \<or> closeBrackets < openBrackets
           then \<lparr>isComplete = False, wasTruncated = True, truncationType = TJson,
                 details = ''JSON imbalance: ''
                   @ string_of_int (int openBraces - int closeBraces) @ '' unclosed braces''\<rparr>
           else if \<not> (\<forall>f \<in> set [''htmlContent'', ''title'', ''metaDescription''].
                          js_includes trimmed (''\"'' @ f @ ''\"''))
           then \<lparr>isComplete = False, wasTruncated = True, truncationType = TContent,
                 details = ''Missing required fields''\<rparr>
           else if (case rev trimmed of [] \<Rightarrow> True | lastChar # r \<Rightarrow> lastChar \<noteq> CHR ''}'')
           then \<lparr>isComplete = False, wasTruncated = True, truncationType = TJson,
                 details = ''Response doesn't end with }''\<rparr>
           else \<lparr>isComplete = True, wasTruncated = False, truncationType = TNone,
                 details = ''Response appears complete''\<rparr>)"

section \<open>Response healer\<close>

text \<open>
  The match of \<^verbatim>\<open>/```(?:json)?\s*([\s\S]*?)```/\<close>, its capture group: after the first fence, an
  optional \<^verbatim>\<open>json\<close> and any white space are skipped, and the capture runs to the next fence.
  When no fence follows, no later start position matches either.
\<close>

definition fence_capture :: "string \<Rightarrow> string option" where
  "fence_capture txt =
     (case split_at_first ''```'' txt of
        None \<Rightarrow> None
      | Some (before, rest) \<Rightarrow>
          let rest1 = (if prefix ''json'' rest then drop 4 rest else rest);
              rest2 = dropWhile is_space rest1
          in (case split_at_first ''```'' rest2 of
                None \<Rightarrow> None
              | Some (captured, after) \<Rightarrow> Some captured))"

text \<open>\<^verbatim>\<open>indexOf\<close> and \<^verbatim>\<open>lastIndexOf\<close> of a character; \<open>None\<close> is \<^verbatim>\<open>-1\<close>.\<close>

fun indexOf :: "char \<Rightarrow> string \<Rightarrow> nat option" where
  "indexOf x [] = None"
| "indexOf x (c # cs) = (if c = x then Some 0 else map_option Suc (indexOf x cs))"

definition lastIndexOf :: "char \<Rightarrow> string \<Rightarrow> nat option" where
  "lastIndexOf x s = map_option (\<lambda>i. length s - 1 - i) (indexOf x (rev s))"

definition boundary_slice :: "string \<Rightarrow> string option" where
  "boundary_slice txt =
     (case (indexOf CHR ''{'' txt, lastIndexOf CHR ''}'' txt) of
        (Some firstBrace, Some lastBrace) \<Rightarrow>
          if lastBrace > firstBrace
          then Some (take (lastBrace + 1 - firstBrace) (drop firstBrace txt))
          else None
      | _ \<Rightarrow> None)"

text \<open>
  \<^verbatim>\<open>fixed.replace(/,(\s*[}\]])/g, '$1')\<close>: every comma that is followed, after optional white
  space, by a closing brace or bracket is dropped.
\<close>

definition before_closer :: "string \<Rightarrow> bool" where
  "before_closer s =
     (case dropWhile is_space s of [] \<Rightarrow> False | d # r \<Rightarrow> d = CHR ''}'' \<or> d = CHR '']'')"

fun strip_trailing_commas :: "string \<Rightarrow> string" where
  "strip_trailing_commas [] = []"
| "strip_trailing_commas (c # cs) =
     (if c = CHR '','' \<and> before_closer cs then strip_trailing_commas cs
      else c # strip_trailing_commas cs)"

text \<open>
  The closers of strategy 5: \<^verbatim>\<open>']'.repeat(Math.max(0, oB - cB))\<close> and then
  \<^verbatim>\<open>'}'.repeat(Math.max(0, ob - cb))\<close>, counted over the whole text.
\<close>

definition truncation_closers :: "string \<Rightarrow> string" where
  "truncation_closers txt =
     replicate (count_list txt CHR ''['' - count_list txt CHR '']'') CHR '']''
     @ replicate (count_list txt CHR ''{'' - count_list txt CHR ''}'') CHR ''}''"

text \<open>
  \<^verbatim>\<open>extractField\<close>: the first match of \<^verbatim>\<open>"<name>"\s*:\s*"((?:[^"\\]|\\.)*)"\<close>. \<open>scan_body\<close> reads
  the group up to the closing quote; a backslash takes the next character with it unless
  that is a line terminator (which \<^verbatim>\<open>.\<close> does not match).
\<close>

fun scan_body :: "string \<Rightarrow> string option" where
  "scan_body [] = None"
| "scan_body [c] = (if c = CHR 0x22 then Some [] else None)"
| "scan_body (c # d # ds) =
     (if c = CHR 0x22 then Some []
      else if c = CHR 0x5C
      then (if d = CHR 0x0A \<or> d = CHR 0x0D then None
            else map_option (\<lambda>r. c # d # r) (scan_body ds))
      else map_option (\<lambda>r. c # r) (scan_body (d # ds)))"

definition match_field_at :: "string \<Rightarrow> string \<Rightarrow> string option" where
  "match_field_at fieldName s =
     (let key = ''\"'' @ fieldName @ ''\"''
      in if prefix key s
         then (case dropWhile is_space (drop (length key) s) of
                 c # r \<Rightarrow>
                   if c = CHR '':''
                   then (case dropWhile is_space r of
                           q # body \<Rightarrow> if q = CHR 0x22 then scan_body body else None
                         | [] \<Rightarrow> None)
                   else None
               | [] \<Rightarrow> None)
         else None)"

fun extractField :: "string \<Rightarrow> string \<Rightarrow> string option" where
  "extractField fieldName [] = None"
| "extractField fieldName (c # cs) =
     (case match_field_at fieldName (c # cs) of
        Some v \<Rightarrow> Some v
      | None \<Rightarrow> extractField fieldName cs)"

record ParsedResponse =
  success :: bool
  data :: "json option"
  error :: "string option"
  isTruncated :: "bool option"

text \<open>
  The messages the healer passes to \<^verbatim>\<open>log\<close>: \<^verbatim>\<open>JSON parsed directly\<close>, \<^verbatim>\<open>JSON extracted from
  markdown block\<close>, \<^verbatim>\<open>JSON extracted by boundary detection\<close>, \<^verbatim>\<open>JSON healed with syntax
  fixes\<close>, \<^verbatim>\<open>Attempting to close truncated JSON\<close>, \<^verbatim>\<open>JSON healed by closing truncated
  structure\<close>, \<^verbatim>\<open>Attempting field-by-field extraction\<close>, \<^verbatim>\<open>JSON reconstructed from field
  extraction\<close>.
\<close>

datatype heal_log =
    ParsedDirectly
  | ExtractedFromMarkdown
  | ExtractedByBoundary
  | HealedWithSyntaxFixes
  | AttemptingToClose
  | HealedByClosing
  | AttemptingFieldExtraction
  | ReconstructedFromFields

text \<open>
  A run of the healer: its result, the messages it logged, and the strings it passed to
  \<^verbatim>\<open>JSON.parse\<close>, both in order.
\<close>

type_synonym heal_run = "ParsedResponse \<times> heal_log list \<times> string list"

definition healed :: "json \<Rightarrow> bool option \<Rightarrow> ParsedResponse" where
  "healed parsed truncated =
     \<lparr>success = True, data = Some parsed, error = None, isTruncated = truncated\<rparr>"

definition attempted :: "string \<Rightarrow> heal_run \<Rightarrow> heal_run" where
  "attempted candidate run = (case run of (r, logs, parses) \<Rightarrow> (r, logs, candidate # parses))"

definition logged :: "heal_log \<Rightarrow> heal_run \<Rightarrow> heal_run" where
  "logged m run = (case run of (r, logs, parses) \<Rightarrow> (r, m # logs, parses))"

text \<open>Strategy 6 and the final failure.\<close>

definition field_extraction :: "string \<Rightarrow> completeness \<Rightarrow> heal_run" where
  "field_extraction txt validation =
     (let htmlContent = extractField ''htmlContent'' txt;
          title = extractField ''title'' txt;
          metaDescription = extractField ''metaDescription'' txt
      in case (htmlContent, title) of
           (Some h, Some t) \<Rightarrow>
             if h \<noteq> [] \<and> t \<noteq> []
             then (healed
                     (JObject
                        [(''htmlContent'', JString h),
                         (''title'', JString t),
                         (''metaDescription'',
                            JString (case metaDescription of None \<Rightarrow> [] | Some m \<Rightarrow> m)),
                         (''slug'', JString []),
                         (''excerpt'', JString []),
                         (''faqs'', JArray []),
                         (''wordCount'', JNumber (of_nat (countWords h)))])
                     (Some True),
                   [AttemptingFieldExtraction, ReconstructedFromFields], [])
             else (\<lparr>success = False, data = None,
                     error = Some (''JSON parse failed. Preview: '' @ take 150 txt @ ''...''),
                     isTruncated = Some (wasTruncated validation)\<rparr>,
                   [AttemptingFieldExtraction], [])
         | _ \<Rightarrow>
             (\<lparr>success = False, data = None,
                error = Some (''JSON parse failed. Preview: '' @ take 150 txt @ ''...''),
                isTruncated = Some (wasTruncated validation)\<rparr>,
              [AttemptingFieldExtraction], []))"

text \<open>Strategy 5, then on.\<close>

definition heal_from_5 :: "(string \<Rightarrow> json option) \<Rightarrow> string \<Rightarrow> heal_run" where
  "heal_from_5 parse txt =
     (let validation = validateResponseCompleteness txt
      in if wasTruncated validation \<and> truncationType validation = TJson
         then
           (let closedText = txt @ truncation_closers txt
            in case try_parse parse closedText of
                 Some parsed \<Rightarrow>
                   (healed parsed (Some True), [AttemptingToClose, HealedByClosing], [closedText])
               | None \<Rightarrow>
                   logged AttemptingToClose
                     (attempted closedText (field_extraction txt validation)))
         else field_extraction txt validation)"

text \<open>Strategy 4, then on.\<close>

definition heal_from_4 :: "(string \<Rightarrow> json option) \<Rightarrow> string \<Rightarrow> heal_run" where
  "heal_from_4 parse txt =
     (let fixed = strip_trailing_commas txt
      in case try_parse parse fixed of
           Some parsed \<Rightarrow> (healed parsed None, [HealedWithSyntaxFixes], [fixed])
         | None \<Rightarrow> attempted fixed (heal_from_5 parse txt))"

text \<open>Strategy 3, then on.\<close>

definition heal_from_3 :: "(string \<Rightarrow> json option) \<Rightarrow> string \<Rightarrow> heal_run" where
  "heal_from_3 parse txt =
     (case boundary_slice txt of
        Some candidate \<Rightarrow>
          (case try_parse parse candidate of
             Some parsed \<Rightarrow> (healed parsed None, [ExtractedByBoundary], [candidate])
           | None \<Rightarrow> attempted candidate (heal_from_4 parse txt))
      | None \<Rightarrow> heal_from_4 parse txt)"

text \<open>Strategy 2, then on.\<close>

definition heal_from_2 :: "(string \<Rightarrow> json option) \<Rightarrow> string \<Rightarrow> heal_run" where
  "heal_from_2 parse txt =
     (case fence_capture txt of
        Some captured \<Rightarrow>
          (case try_parse parse (trim captured) of
             Some parsed \<Rightarrow> (healed parsed None, [ExtractedFromMarkdown], [trim captured])
           | None \<Rightarrow> attempted (trim captured) (heal_from_3 parse txt))
      | None \<Rightarrow> heal_from_3 parse txt)"

text \<open>\<^verbatim>\<open>healJSON\<close>: the empty check, strategy 1, then on.\<close>

definition healJSON :: "(string \<Rightarrow> json option) \<Rightarrow> string \<Rightarrow> heal_run" where
  "healJSON parse rawText =
     (if trim rawText = []
      then (\<lparr>success = False, data = None, error = Some ''Empty response text'',
              isTruncated = None\<rparr>, [], [])
      else
        let txt = trim rawText
        in case try_parse parse txt of
             Some parsed \<Rightarrow> (healed parsed None, [ParsedDirectly], [txt])
           | None \<Rightarrow> attempted txt (heal_from_2 parse txt))"

text \<open>
  What strategy 5 is specified to append: the closers of the openers left unmatched by a
  scan of the text, innermost first.
\<close>

fun unmatched_openers :: "string \<Rightarrow> string \<Rightarrow> string" where
  "unmatched_openers stack [] = stack"
| "unmatched_openers stack (c # cs) =
     (if c = CHR ''{'' \<or> c = CHR ''['' then unmatched_openers (c # stack) cs
      else if c = CHR ''}'' \<or> c = CHR '']''
      then unmatched_openers (case stack of [] \<Rightarrow> [] | s # rest \<Rightarrow> rest) cs
      else unmatched_openers stack cs)"

definition nested_closers :: "string \<Rightarrow> string" where
  "nested_closers txt =
     map (\<lambda>c. if c = CHR ''{'' then CHR ''}'' else CHR '']'') (unmatched_openers [] txt)"

text \<open>
  The six strategies one by one: what each would recover from the trimmed text on its own,
  and the strings strategies 1 to 5 would hand to \<^verbatim>\<open>JSON.parse\<close>, in priority order.
\<close>

definition strategy_1 :: "(string \<Rightarrow> json option) \<Rightarrow> string \<Rightarrow> json option" where
  "strategy_1 parse txt = try_parse parse txt"

definition strategy_2 :: "(string \<Rightarrow> json option) \<Rightarrow> string \<Rightarrow> json option" where
  "strategy_2 parse txt =
     (case fence_capture txt of None \<Rightarrow> None | Some c \<Rightarrow> try_parse parse (trim c))"

definition strategy_3 :: "(string \<Rightarrow> json option) \<Rightarrow> string \<Rightarrow> json option" where
  "strategy_3 parse txt =
     (case boundary_slice txt of None \<Rightarrow> None | Some c \<Rightarrow> try_parse parse c)"

definition strategy_4 :: "(string \<Rightarrow> json option) \<Rightarrow> string \<Rightarrow> json option" where
  "strategy_4 parse txt = try_parse parse (strip_trailing_commas txt)"

definition closing_gate :: "string \<Rightarrow> bool" where
  "closing_gate txt =
     (wasTruncated (validateResponseCompleteness txt)
      \<and> truncationType (validateResponseCompleteness txt) = TJson)"

definition strategy_5 :: "(string \<Rightarrow> json option) \<Rightarrow> string \<Rightarrow> json option" where
  "strategy_5 parse txt =
     (if closing_gate txt then try_parse parse (txt @ truncation_closers txt) else None)"

definition strategy_6 :: "string \<Rightarrow> json option" where
  "strategy_6 txt =
     (if success (fst (field_extraction txt (validateResponseCompleteness txt)))
      then data (fst (field_extraction txt (validateResponseCompleteness txt)))
      else None)"


text \<open>
  Example responses, and what \<^verbatim>\<open>JSON.parse\<close> returns on the strings the healer passes to it
  when it runs on them: three of them are valid JSON, every other one is a syntax error.
\<close>

definition fenced_response :: string where
  "fenced_response =
     ''```json'' @ [CHR 0x0A]
     @ ''{\"htmlContent\":\"<p>Hello</p>\",\"title\":\"T\"}'' @ [CHR 0x0A] @ ''```''"

definition truncated_response :: string where
  "truncated_response = ''{\"htmlContent\":\"<p>x</p>\",\"meta\":{\"tags\":[\"a\"''"

definition truncated_in_array :: string where
  "truncated_in_array = ''{\"htmlContent\":\"<p>x</p>\",\"faqs\":[{\"question\":\"q\"''"

definition example_parse :: "string \<Rightarrow> json option" where
  "example_parse =
     map_of
       [(''{\"htmlContent\":\"<p>Hello</p>\",\"title\":\"T\"}'',
           JObject [(''htmlContent'', JString ''<p>Hello</p>''), (''title'', JString ''T'')]),
        (''{\"htmlContent\":\"<p>x</p>\",\"meta\":{\"tags\":[\"a\"]}}'',
           JObject [(''htmlContent'', JString ''<p>x</p>''),
                    (''meta'', JObject [(''tags'', JArray [JString ''a''])])]),
        (''{\"htmlContent\":\"<p>x</p>\",\"faqs\":[{\"question\":\"q\"}]}'',
           JObject [(''htmlContent'', JString ''<p>x</p>''),
                    (''faqs'', JArray [JObject [(''question'', JString ''q'')]])])]"

text \<open>
  Further responses: a fence with the tag in upper case, an object with a trailing comma,
  two fields without braces. \<open>array_body_parse\<close> is \<^verbatim>\<open>JSON.parse\<close> on an object whose body is an
  empty array.
\<close>

definition tagged_fence_response :: string where
  "tagged_fence_response =
     ''```JSON'' @ [CHR 0x0A] @ ''{\"htmlContent\":\"<p>Hello</p>\",\"title\":\"T\"}''
     @ [CHR 0x0A] @ ''```''"

definition trailing_comma_response :: string where
  "trailing_comma_response = ''{\"htmlContent\":\"<p>Hello</p>\",\"title\":\"T\",}''"

definition fields_only_response :: string where
  "fields_only_response = ''\"htmlContent\": \"<p>Hello</p>\", \"title\": \"T\"''"

definition array_body_parse :: "string \<Rightarrow> json option" where
  "array_body_parse = map_of [(''{\"htmlContent\":[]}'', JObject [(''htmlContent'', JArray [])])]"

section \<open>Properties of the backoff calculator\<close>










section \<open>Properties of the circuit breaker\<close>

lemma breaker_of_recordFailure:
  "breaker_of (recordFailure p now reg) p =
     (breaker_of reg p)\<lparr>failures := failures (breaker_of reg p) + 1, lastFailure := now,
        isOpen := (FAILURE_THRESHOLD \<le> failures (breaker_of reg p) + 1 \<or> isOpen (breaker_of reg p))\<rparr>"
  by (simp add: breaker_of_def recordFailure_def getCircuitBreaker_def Let_def
      split: option.splits)

lemma breaker_of_recordSuccess:
  "breaker_of (recordSuccess p reg) p = (breaker_of reg p)\<lparr>failures := 0, isOpen := False\<rparr>"
  by (simp add: breaker_of_def recordSuccess_def getCircuitBreaker_def Let_def
      split: option.splits)

lemma breaker_of_other:
  "q \<noteq> p \<Longrightarrow> breaker_of (recordFailure q now reg) p = breaker_of reg p"
  "q \<noteq> p \<Longrightarrow> breaker_of (recordSuccess q reg) p = breaker_of reg p"
  by (auto simp add: breaker_of_def recordFailure_def recordSuccess_def getCircuitBreaker_def
      Let_def split: option.splits)

lemma breaker_of_getCircuitBreaker:
  "breaker_of (snd (getCircuitBreaker p reg)) q = breaker_of reg q"
  by (simp add: breaker_of_def getCircuitBreaker_def split: option.splits)

lemma isCircuitOpen_breaker_of:
  "fst (isCircuitOpen p now reg) =
     (isOpen (breaker_of reg p) \<and> now - lastFailure (breaker_of reg p) \<le> RESET_TIMEOUT)"
  "breaker_of (snd (isCircuitOpen p now reg)) q = breaker_of reg q"
  by (auto simp add: isCircuitOpen_def breaker_of_def getCircuitBreaker_def Let_def
      split: option.splits)

lemma run_ops_snoc: "run_ops (ops @ [x]) reg = apply_op (run_ops ops reg) x"
  by (simp add: run_ops_def)

lemma streak_snoc: "streak p (ops @ [x]) = streak_step p (streak p ops) x"
  by (simp add: streak_def)

lemma run_ops_invariant:
  assumes "reg p = None"
  shows "failures (breaker_of (run_ops ops reg) p) = streak p ops
       \<and> isOpen (breaker_of (run_ops ops reg) p) = (FAILURE_THRESHOLD \<le> streak p ops)"
proof (induction ops rule: rev_induct)
  case Nil
  from assms show ?case
    by (simp add: run_ops_def streak_def breaker_of_def getCircuitBreaker_def fresh_def
        FAILURE_THRESHOLD_def)
next
  case (snoc x ops)
  obtain q op where x: "x = (q, op)" by (cases x)
  show ?case
  proof (cases "q = p")
    case True
    with snoc x show ?thesis
      by (cases op)
         (auto simp add: run_ops_snoc streak_snoc breaker_of_recordFailure
            breaker_of_recordSuccess FAILURE_THRESHOLD_def)
  next
    case False
    with snoc x show ?thesis
      by (cases op) (simp_all add: run_ops_snoc streak_snoc breaker_of_other)
  qed
qed

text \<open>
  Claim C4. Start from a registry that has no entry for provider \<open>p\<close> and run any history of
  \<^verbatim>\<open>recordFailure\<close>/\<^verbatim>\<open>recordSuccess\<close> calls (for \<open>p\<close> and for other providers). Then the failure
  count of \<open>p\<close> is the number of failures recorded for \<open>p\<close> since its last success; the breaker
  is open exactly when that count has reached the threshold 3, and \<^verbatim>\<open>isCircuitOpen\<close> reports
  it open exactly then while the reset window has not elapsed; an open breaker has a failure
  count of at least the threshold. One more \<^verbatim>\<open>recordFailure\<close> adds one to the count and
  stamps the time; a \<^verbatim>\<open>recordSuccess\<close>, on any registry whatever, sets the count to 0 and
  clears the open flag.
\<close>

theorem breaker_open_iff_threshold:
  assumes "reg p = None"
  shows "failures (breaker_of (run_ops ops reg) p) = streak p ops
       \<and> (isOpen (breaker_of (run_ops ops reg) p) \<longleftrightarrow> 3 \<le> streak p ops)
       \<and> (isOpen (breaker_of (run_ops ops reg) p)
            \<longrightarrow> FAILURE_THRESHOLD \<le> failures (breaker_of (run_ops ops reg) p))
       \<and> (now - lastFailure (breaker_of (run_ops ops reg) p) \<le> RESET_TIMEOUT
            \<longrightarrow> (fst (isCircuitOpen p now (run_ops ops reg)) \<longleftrightarrow> 3 \<le> streak p ops))
       \<and> failures (breaker_of (recordFailure p now (run_ops ops reg)) p) = streak p ops + 1
       \<and> lastFailure (breaker_of (recordFailure p now (run_ops ops reg)) p) = now
       \<and> failures (breaker_of (recordSuccess p any_reg) p) = 0
       \<and> \<not> isOpen (breaker_of (recordSuccess p any_reg) p)
       \<and> \<not> fst (isCircuitOpen p now (recordSuccess p any_reg))"
proof -
  have inv: "failures (breaker_of (run_ops ops reg) p) = streak p ops
       \<and> isOpen (breaker_of (run_ops ops reg) p) = (FAILURE_THRESHOLD \<le> streak p ops)"
    using assms by (rule run_ops_invariant)
  have "fst (isCircuitOpen p now (recordSuccess p any_reg)) = False"
    by (simp add: isCircuitOpen_breaker_of breaker_of_recordSuccess)
  with inv show ?thesis
    by (simp add: isCircuitOpen_breaker_of breaker_of_recordFailure breaker_of_recordSuccess
        FAILURE_THRESHOLD_def)
qed

theorem breaker_open_iff_threshold_witness:
  "(Map.empty :: registry) ''openai'' = None
   \<and> \<not> isOpen (breaker_of (run_ops [(''openai'', Failure 10), (''openai'', Failure 20)] Map.empty) ''openai'')
   \<and> isOpen (breaker_of (run_ops [(''openai'', Failure 10), (''openai'', Failure 20),
        (''groq'', Success), (''openai'', Failure 30)] Map.empty) ''openai'')
   \<and> failures (breaker_of (run_ops [(''openai'', Failure 10), (''openai'', Failure 20),
        (''groq'', Success), (''openai'', Failure 30)] Map.empty) ''openai'') = 3
   \<and> fst (isCircuitOpen ''openai'' 31 (run_ops [(''openai'', Failure 10), (''openai'', Failure 20),
        (''groq'', Success), (''openai'', Failure 30)] Map.empty))"
proof -
  have e: "(Map.empty :: registry) ''openai'' = None" by simp
  have s2: "streak ''openai'' [(''openai'', Failure 10), (''openai'', Failure 20)] = 2"
    by (simp add: streak_def)
  have s3: "streak ''openai'' [(''openai'', Failure 10), (''openai'', Failure 20),
        (''groq'', Success), (''openai'', Failure 30)] = 3"
    by (simp add: streak_def)
  have l: "lastFailure (breaker_of (run_ops [(''openai'', Failure 10), (''openai'', Failure 20),
        (''groq'', Success), (''openai'', Failure 30)] Map.empty) ''openai'') = 30"
    by (simp add: run_ops_def breaker_of_recordFailure)
  show ?thesis
    using breaker_open_iff_threshold [where reg = Map.empty and p = "''openai''" and now = 31
        and ops = "[(''openai'', Failure 10), (''openai'', Failure 20)]"]
      breaker_open_iff_threshold [where reg = Map.empty and p = "''openai''" and now = 31
        and ops = "[(''openai'', Failure 10), (''openai'', Failure 20),
          (''groq'', Success), (''openai'', Failure 30)]"]
    by (simp add: s2 s3 l RESET_TIMEOUT_def)
qed

section \<open>Properties of the provider gateway\<close>

lemma string_of_nat_3_digits:
  assumes "100 \<le> n" and "n \<le> 999"
  shows "string_of_nat n =
    [digit_char (n div 100), digit_char (n div 10 mod 10), digit_char (n mod 10)]"
proof -
  have 1: "string_of_nat n = string_of_nat (n div 10) @ [digit_char (n mod 10)]"
    using assms by (subst string_of_nat.simps) simp
  have 2: "string_of_nat (n div 10) =
      string_of_nat (n div 10 div 10) @ [digit_char (n div 10 mod 10)]"
    using assms by (subst string_of_nat.simps) simp
  have 3: "string_of_nat (n div 10 div 10) = [digit_char (n div 10 div 10)]"
    using assms by (subst string_of_nat.simps) simp
  have 4: "n div 10 div 10 = n div 100"
    by (simp add: div_mult2_eq [symmetric])
  show ?thesis using 1 2 3 4 by simp
qed

lemma digit_cases:
  "d < 10 \<Longrightarrow> d = 0 \<or> d = 1 \<or> d = 2 \<or> d = 3 \<or> d = 4 \<or> d = 5 \<or> d = 6 \<or> d = 7 \<or> d = 8 \<or> d = (9::nat)"
  by arith

lemma digit_char_iff:
  assumes "d < 10"
  shows "digit_char d = CHR ''4'' \<longleftrightarrow> d = 4"
    and "digit_char d = CHR ''2'' \<longleftrightarrow> d = 2"
    and "digit_char d = CHR ''9'' \<longleftrightarrow> d = 9"
    and "digit_char d = CHR ''5'' \<longleftrightarrow> d = 5"
    and "digit_char d = CHR ''0'' \<longleftrightarrow> d = 0"
    and "digit_char d = CHR ''3'' \<longleftrightarrow> d = 3"
  using digit_cases [OF assms] by (auto simp add: digit_char_def)

lemma includes_3_chars:
  assumes "set label \<inter> {x, y, z} = {}"
  shows "js_includes (label @ [a, b, c]) [x, y, z] \<longleftrightarrow> a = x \<and> b = y \<and> c = z"
  using assms by (induction label) auto

lemma includes_status:
  assumes "100 \<le> n" and "n \<le> 999" and "set label \<inter> {x, y, z} = {}"
  shows "js_includes (label @ string_of_nat n) [x, y, z] \<longleftrightarrow>
     digit_char (n div 100) = x \<and> digit_char (n div 10 mod 10) = y \<and> digit_char (n mod 10) = z"
  by (simp only: string_of_nat_3_digits [OF assms(1,2)] includes_3_chars [OF assms(3)])

lemma decimal_decomposition:
  "(n::nat) = 100 * (n div 100) + 10 * (n div 10 mod 10) + n mod 10"
proof -
  have "n div 10 = 10 * (n div 10 div 10) + n div 10 mod 10" by simp
  moreover have "n = 10 * (n div 10) + n mod 10" by simp
  moreover have "n div 10 div 10 = n div 100" by (simp add: div_mult2_eq [symmetric])
  ultimately show ?thesis by linarith
qed

lemma status_digits:
  "((n div 100 = 4 \<and> n div 10 mod 10 = 2 \<and> n mod 10 = 9)
      \<or> (n div 100 = 5 \<and> n div 10 mod 10 = 0 \<and> n mod 10 = 0)
      \<or> (n div 100 = 5 \<and> n div 10 mod 10 = 0 \<and> n mod 10 = 3))
    \<longleftrightarrow> n = 429 \<or> n = 500 \<or> n = (503::nat)"
proof
  assume "(n div 100 = 4 \<and> n div 10 mod 10 = 2 \<and> n mod 10 = 9)
      \<or> (n div 100 = 5 \<and> n div 10 mod 10 = 0 \<and> n mod 10 = 0)
      \<or> (n div 100 = 5 \<and> n div 10 mod 10 = 0 \<and> n mod 10 = 3)"
  then show "n = 429 \<or> n = 500 \<or> n = 503"
    using decimal_decomposition [of n] by linarith
next
  assume "n = 429 \<or> n = 500 \<or> n = 503"
  then show "(n div 100 = 4 \<and> n div 10 mod 10 = 2 \<and> n mod 10 = 9)
      \<or> (n div 100 = 5 \<and> n div 10 mod 10 = 0 \<and> n mod 10 = 0)
      \<or> (n div 100 = 5 \<and> n div 10 mod 10 = 0 \<and> n mod 10 = 3)"
    by (elim disjE) simp_all
qed

lemma transient_status_message:
  assumes "100 \<le> n" and "n \<le> 999"
    and "label \<in> {''OpenRouter'', ''OpenAI'', ''Anthropic'', ''Groq''}"
  shows "transient_message (label @ '' error '' @ string_of_nat n)
           \<longleftrightarrow> n = 429 \<or> n = 500 \<or> n = 503"
proof -
  have d: "n div 100 < 10" "n div 10 mod 10 < 10" "n mod 10 < 10"
    using assms by auto
  have l: "set (label @ '' error '') \<inter> {CHR ''4'', CHR ''2'', CHR ''9''} = {}"
      "set (label @ '' error '') \<inter> {CHR ''5'', CHR ''0'', CHR ''0''} = {}"
      "set (label @ '' error '') \<inter> {CHR ''5'', CHR ''0'', CHR ''3''} = {}"
    using assms(3) by auto
  have "transient_message ((label @ '' error '') @ string_of_nat n) \<longleftrightarrow>
        (n div 100 = 4 \<and> n div 10 mod 10 = 2 \<and> n mod 10 = 9)
      \<or> (n div 100 = 5 \<and> n div 10 mod 10 = 0 \<and> n mod 10 = 0)
      \<or> (n div 100 = 5 \<and> n div 10 mod 10 = 0 \<and> n mod 10 = 3)"
    unfolding transient_message_def
    by (simp only: includes_status [OF assms(1,2) l(1)] includes_status [OF assms(1,2) l(2)]
        includes_status [OF assms(1,2) l(3)] digit_char_iff [OF d(1)] digit_char_iff [OF d(2)]
        digit_char_iff [OF d(3)])
  also have "\<dots> \<longleftrightarrow> n = 429 \<or> n = 500 \<or> n = 503"
    by (rule status_digits)
  finally show ?thesis by simp
qed

lemma callLLM_admitted:
  assumes "\<not> fst (isCircuitOpen p t0 reg)"
  shows "callLLM p timeoutMs r t0 t1 reg =
     (fst (callLLM_settle p timeoutMs t1 r (snd (isCircuitOpen p t0 reg))),
      snd (callLLM_settle p timeoutMs t1 r (snd (isCircuitOpen p t0 reg))),
      (case adapter_of p of None \<Rightarrow> [] | Some call \<Rightarrow> [p]))"
  using assms
  by (simp add: callLLM_def callLLM_begin_def split_beta Let_def)

lemma callLLM_rejected:
  assumes "fst (isCircuitOpen p t0 reg)"
  shows "callLLM p timeoutMs r t0 t1 reg =
     (Inl (Error (''Circuit breaker OPEN for '' @ p)), snd (isCircuitOpen p t0 reg), [])"
  using assms
  by (simp add: callLLM_def callLLM_begin_def split_beta Let_def)


lemma fetch_adapter_status:
  assumes "100 \<le> st" and "st \<le> 599" and "\<not> response_ok st"
    and "label \<in> {''OpenRouter'', ''OpenAI'', ''Anthropic'', ''Groq''}"
  shows "fst (callLLM_catch p timeoutMs now (Error (label @ '' error '' @ string_of_nat st)) reg)
           = Inl (Error (label @ '' error '' @ string_of_nat st))"
    and "snd (callLLM_catch p timeoutMs now (Error (label @ '' error '' @ string_of_nat st)) reg)
           = (if st = 429 \<or> st = 500 \<or> st = 503 then recordFailure p now reg else reg)"
proof -
  have "st \<le> 999" using assms(2) by simp
  from transient_status_message [OF assms(1) this assms(4)]
  show "fst (callLLM_catch p timeoutMs now (Error (label @ '' error '' @ string_of_nat st)) reg)
           = Inl (Error (label @ '' error '' @ string_of_nat st))"
    and "snd (callLLM_catch p timeoutMs now (Error (label @ '' error '' @ string_of_nat st)) reg)
           = (if st = 429 \<or> st = 500 \<or> st = 503 then recordFailure p now reg else reg)"
    by (simp_all add: callLLM_catch_def Error_def)
qed

lemma settle_status:
  assumes "p \<in> {''openrouter'', ''openai'', ''anthropic'', ''groq''}"
    and "100 \<le> st" and "st \<le> 599" and "\<not> response_ok st"
  shows "snd (callLLM_settle p timeoutMs now (Response st body) reg)
           = (if st = 429 \<or> st = 500 \<or> st = 503 then recordFailure p now reg else reg)
       \<and> isl (fst (callLLM_settle p timeoutMs now (Response st body) reg))"
proof -
  have "\<exists>label \<in> {''OpenRouter'', ''OpenAI'', ''Anthropic'', ''Groq''}.
          adapter_of p = Some (fetch_adapter label)"
    using assms(1)
    by (auto simp add: adapter_of_def callOpenRouter_def callOpenAI_def callAnthropic_def
        callGroq_def)
  then obtain label where l: "label \<in> {''OpenRouter'', ''OpenAI'', ''Anthropic'', ''Groq''}"
    and a: "adapter_of p = Some (fetch_adapter label)" by blast
  have s: "callLLM_settle p timeoutMs now (Response st body) reg =
      callLLM_catch p timeoutMs now (Error (label @ '' error '' @ string_of_nat st)) reg"
    using assms(4) by (simp add: callLLM_settle_def a fetch_adapter_def)
  show ?thesis
    unfolding s fetch_adapter_status [OF assms(2,3,4) l] by simp
qed

text \<open>
  Claim C5, as amended. While the breaker of a provider is open and the clock at the call is
  at most 60000 ms past the last failure, \<^verbatim>\<open>callLLM\<close> fails at once with the error
  \<^verbatim>\<open>Circuit breaker OPEN for <provider>\<close>, invokes no adapter and changes no breaker. Once
  more than 60000 ms have passed, the check lets the call through (for a known provider the
  adapter is invoked) and the check itself leaves every breaker as it was: the open flag
  stays set, so every call that begins before an outcome is recorded is let through too.
\<close>

theorem open_breaker_gate:
  assumes "isOpen (breaker_of reg p)"
  shows "(t0 - lastFailure (breaker_of reg p) \<le> RESET_TIMEOUT \<longrightarrow>
            fst (callLLM p timeoutMs r t0 t1 reg) = Inl (Error (''Circuit breaker OPEN for '' @ p))
          \<and> snd (snd (callLLM p timeoutMs r t0 t1 reg)) = []
          \<and> (\<forall>q. breaker_of (fst (snd (callLLM p timeoutMs r t0 t1 reg))) q = breaker_of reg q))
       \<and> (t0 - lastFailure (breaker_of reg p) > RESET_TIMEOUT \<longrightarrow>
            fst (callLLM_begin p t0 reg) = Inr ()
          \<and> (\<forall>q. breaker_of (snd (callLLM_begin p t0 reg)) q = breaker_of reg q)
          \<and> isOpen (breaker_of (snd (callLLM_begin p t0 reg)) p)
          \<and> (adapter_of p \<noteq> None \<longrightarrow> snd (snd (callLLM p timeoutMs r t0 t1 reg)) = [p]))"
proof (intro conjI impI)
  assume w: "t0 - lastFailure (breaker_of reg p) \<le> RESET_TIMEOUT"
  with assms have o: "fst (isCircuitOpen p t0 reg)"
    by (simp add: isCircuitOpen_breaker_of)
  show "fst (callLLM p timeoutMs r t0 t1 reg) = Inl (Error (''Circuit breaker OPEN for '' @ p))"
    and "snd (snd (callLLM p timeoutMs r t0 t1 reg)) = []"
    and "\<forall>q. breaker_of (fst (snd (callLLM p timeoutMs r t0 t1 reg))) q = breaker_of reg q"
    by (simp_all add: callLLM_rejected [OF o] isCircuitOpen_breaker_of)
next
  assume w: "RESET_TIMEOUT < t0 - lastFailure (breaker_of reg p)"
  then have o: "\<not> fst (isCircuitOpen p t0 reg)"
    by (simp add: isCircuitOpen_breaker_of)
  then show "fst (callLLM_begin p t0 reg) = Inr ()"
    by (simp add: callLLM_begin_def split_beta)
  from o show b: "\<forall>q. breaker_of (snd (callLLM_begin p t0 reg)) q = breaker_of reg q"
    by (simp add: callLLM_begin_def split_beta isCircuitOpen_breaker_of)
  from b assms show "isOpen (breaker_of (snd (callLLM_begin p t0 reg)) p)"
    by simp
  assume "adapter_of p \<noteq> None"
  then show "snd (snd (callLLM p timeoutMs r t0 t1 reg)) = [p]"
    by (auto simp add: callLLM_admitted [OF o])
qed


lemmas gateway_eval =
  three_failures_def run_ops_def callLLM_def callLLM_begin_def isCircuitOpen_def
  getCircuitBreaker_def recordFailure_def recordSuccess_def fresh_def breaker_of_def
  FAILURE_THRESHOLD_def RESET_TIMEOUT_def Let_def callLLM_settle_def adapter_of_def
  callOpenAI_def callOpenRouter_def callGemini_def fetch_adapter_def response_ok_def
  callLLM_catch_def Error_def transient_message_def string_of_nat.simps digit_char_def

theorem open_breaker_gate_witness:
  "isOpen (breaker_of three_failures ''openai'')
   \<and> lastFailure (breaker_of three_failures ''openai'') = 0
   \<and> fst (callLLM ''openai'' 90000 (Response 200 ''text'') 60000 60001 three_failures)
        = Inl (Error ''Circuit breaker OPEN for openai'')
   \<and> snd (snd (callLLM ''openai'' 90000 (Response 200 ''text'') 60000 60001 three_failures)) = []
   \<and> fst (callLLM_begin ''openai'' 60001 three_failures) = Inr ()
   \<and> adapter_of ''openai'' \<noteq> None
   \<and> snd (snd (callLLM ''openai'' 90000 (Response 200 ''text'') 60001 60002 three_failures))
        = [''openai'']"
proof -
  have o: "isOpen (breaker_of three_failures ''openai'')"
    and l: "lastFailure (breaker_of three_failures ''openai'') = 0"
    by (simp_all add: three_failures_def run_ops_def breaker_of_recordFailure
        FAILURE_THRESHOLD_def)
  have a: "adapter_of ''openai'' \<noteq> None"
    by (simp add: adapter_of_def)
  show ?thesis
    using o l a
      open_breaker_gate [OF o, where ?t0.0 = 60000 and ?t1.0 = 60001 and timeoutMs = 90000
        and r = "Response 200 ''text''"]
      open_breaker_gate [OF o, where ?t0.0 = 60001 and ?t1.0 = 60002 and timeoutMs = 90000
        and r = "Response 200 ''text''"]
    by (simp add: RESET_TIMEOUT_def)
qed

text \<open>
  Claim C5 as stated fails: after the reset window no single-trial gate exists. With three
  failures recorded at time 0, a call that begins at 60001 ms is let through, and so is a
  second call that begins at 60002 ms before any outcome of the first has been recorded
  (two section calls of one batch do this); a trial that ends in HTTP 401 records nothing,
  and the next call is dispatched to the adapter again.
\<close>

theorem single_trial_counterexample:
  "isOpen (breaker_of three_failures ''openai'')
   \<and> fst (callLLM_begin ''openai'' 60001 three_failures) = Inr ()
   \<and> fst (callLLM_begin ''openai'' 60002 (snd (callLLM_begin ''openai'' 60001 three_failures)))
        = Inr ()
   \<and> snd (snd (callLLM ''openai'' 90000 (Response 401 []) 60001 60002 three_failures))
        = [''openai'']
   \<and> snd (snd (callLLM ''openai'' 90000 (Response 401 []) 60003 60004
          (fst (snd (callLLM ''openai'' 90000 (Response 401 []) 60001 60002 three_failures)))))
        = [''openai'']"
  by (simp add: gateway_eval)

text \<open>
  Claim C6, as amended. For a call that passes the breaker check: a successful return calls
  \<^verbatim>\<open>recordSuccess\<close>; an adapter error named \<^verbatim>\<open>AbortError\<close> calls \<^verbatim>\<open>recordFailure\<close> and
  is re-raised as \<^verbatim>\<open>Request timeout after <timeoutMs>ms\<close>; any other error is re-raised
  unchanged, and \<^verbatim>\<open>recordFailure\<close> is called exactly when its message contains \<^verbatim>\<open>429\<close>,
  \<^verbatim>\<open>500\<close> or \<^verbatim>\<open>503\<close>. So for the four adapters that go through \<^verbatim>\<open>fetch\<close>, a non-OK HTTP
  status between 100 and 599 is recorded as a breaker failure exactly when it is 429, 500
  or 503 (other 5xx and 4xx statuses change no breaker), and an unknown provider name raises
  \<^verbatim>\<open>Unknown provider: <name>\<close> without invoking an adapter, with no breaker change unless
  the name itself contains one of the three digit runs.
\<close>

theorem gateway_bookkeeping:
  assumes "\<not> fst (isCircuitOpen p t0 reg)"
  shows "(\<forall>resp. fst (callLLM p timeoutMs r t0 t1 reg) = Inr resp \<longrightarrow>
            fst (snd (callLLM p timeoutMs r t0 t1 reg))
              = recordSuccess p (snd (isCircuitOpen p t0 reg)))
       \<and> (\<forall>call e. adapter_of p = Some call \<and> call r = Inl e \<and> err_name e = ''AbortError'' \<longrightarrow>
            callLLM p timeoutMs r t0 t1 reg
              = (Inl (Error (''Request timeout after '' @ string_of_nat timeoutMs @ ''ms'')),
                 recordFailure p t1 (snd (isCircuitOpen p t0 reg)), [p]))
       \<and> (\<forall>call e. adapter_of p = Some call \<and> call r = Inl e \<and> err_name e \<noteq> ''AbortError'' \<longrightarrow>
            callLLM p timeoutMs r t0 t1 reg
              = (Inl e,
                 if transient_message (err_message e)
                 then recordFailure p t1 (snd (isCircuitOpen p t0 reg))
                 else snd (isCircuitOpen p t0 reg), [p]))
       \<and> (\<forall>st body. p \<in> {''openrouter'', ''openai'', ''anthropic'', ''groq''}
              \<and> r = Response st body \<and> 100 \<le> st \<and> st \<le> 599 \<and> \<not> response_ok st \<longrightarrow>
            isl (fst (callLLM p timeoutMs r t0 t1 reg))
          \<and> fst (snd (callLLM p timeoutMs r t0 t1 reg))
              = (if st = 429 \<or> st = 500 \<or> st = 503
                 then recordFailure p t1 (snd (isCircuitOpen p t0 reg))
                 else snd (isCircuitOpen p t0 reg)))
       \<and> (adapter_of p = None \<longrightarrow>
            callLLM p timeoutMs r t0 t1 reg
              = (Inl (Error (''Unknown provider: '' @ p)),
                 if transient_message (''Unknown provider: '' @ p)
                 then recordFailure p t1 (snd (isCircuitOpen p t0 reg))
                 else snd (isCircuitOpen p t0 reg), []))"
proof (intro conjI allI impI)
  fix resp
  assume "fst (callLLM p timeoutMs r t0 t1 reg) = Inr resp"
  then show "fst (snd (callLLM p timeoutMs r t0 t1 reg))
      = recordSuccess p (snd (isCircuitOpen p t0 reg))"
    by (auto simp add: callLLM_admitted [OF assms] callLLM_settle_def callLLM_catch_def
        split: option.splits sum.splits if_splits)
next
  fix call e
  assume "adapter_of p = Some call \<and> call r = Inl e \<and> err_name e = ''AbortError''"
  then show "callLLM p timeoutMs r t0 t1 reg
      = (Inl (Error (''Request timeout after '' @ string_of_nat timeoutMs @ ''ms'')),
         recordFailure p t1 (snd (isCircuitOpen p t0 reg)), [p])"
    by (simp add: callLLM_admitted [OF assms] callLLM_settle_def callLLM_catch_def)
next
  fix call e
  assume "adapter_of p = Some call \<and> call r = Inl e \<and> err_name e \<noteq> ''AbortError''"
  then show "callLLM p timeoutMs r t0 t1 reg
      = (Inl e,
         if transient_message (err_message e)
         then recordFailure p t1 (snd (isCircuitOpen p t0 reg))
         else snd (isCircuitOpen p t0 reg), [p])"
    by (simp add: callLLM_admitted [OF assms] callLLM_settle_def callLLM_catch_def)
next
  fix st body
  assume a: "p \<in> {''openrouter'', ''openai'', ''anthropic'', ''groq''}
      \<and> r = Response st body \<and> 100 \<le> st \<and> st \<le> 599 \<and> \<not> response_ok st"
  then have s: "snd (callLLM_settle p timeoutMs t1 (Response st body) (snd (isCircuitOpen p t0 reg)))
           = (if st = 429 \<or> st = 500 \<or> st = 503
              then recordFailure p t1 (snd (isCircuitOpen p t0 reg))
              else snd (isCircuitOpen p t0 reg))
       \<and> isl (fst (callLLM_settle p timeoutMs t1 (Response st body) (snd (isCircuitOpen p t0 reg))))"
    by (intro settle_status) simp_all
  from a s show "isl (fst (callLLM p timeoutMs r t0 t1 reg))"
    by (simp add: callLLM_admitted [OF assms])
  from a s show "fst (snd (callLLM p timeoutMs r t0 t1 reg))
      = (if st = 429 \<or> st = 500 \<or> st = 503
         then recordFailure p t1 (snd (isCircuitOpen p t0 reg))
         else snd (isCircuitOpen p t0 reg))"
    by (simp add: callLLM_admitted [OF assms])
next
  assume "adapter_of p = None"
  then show "callLLM p timeoutMs r t0 t1 reg
      = (Inl (Error (''Unknown provider: '' @ p)),
         if transient_message (''Unknown provider: '' @ p)
         then recordFailure p t1 (snd (isCircuitOpen p t0 reg))
         else snd (isCircuitOpen p t0 reg), [])"
    by (simp add: callLLM_admitted [OF assms] callLLM_settle_def callLLM_catch_def Error_def)
qed

theorem gateway_bookkeeping_witness:
  "\<not> fst (isCircuitOpen ''openai'' 5 Map.empty)
   \<and> fst (callLLM ''openai'' 90000 (Response 200 ''hello'') 5 6 Map.empty) = Inr ''hello''
   \<and> fst (snd (callLLM ''openai'' 90000 (Response 200 ''hello'') 5 6 Map.empty))
        = recordSuccess ''openai'' (snd (isCircuitOpen ''openai'' 5 Map.empty))
   \<and> callLLM ''openai'' 90000 (Rejected (JsError ''AbortError'' ''aborted'')) 5 6 Map.empty
        = (Inl (Error ''Request timeout after 90000ms''),
           recordFailure ''openai'' 6 (snd (isCircuitOpen ''openai'' 5 Map.empty)), [''openai''])
   \<and> fst (snd (callLLM ''openai'' 90000 (Response 503 []) 5 6 Map.empty))
        = recordFailure ''openai'' 6 (snd (isCircuitOpen ''openai'' 5 Map.empty))
   \<and> fst (snd (callLLM ''openai'' 90000 (Response 401 []) 5 6 Map.empty))
        = snd (isCircuitOpen ''openai'' 5 Map.empty)
   \<and> \<not> fst (isCircuitOpen ''nobody'' 5 Map.empty)
   \<and> callLLM ''nobody'' 90000 (Response 200 []) 5 6 Map.empty
        = (Inl (Error ''Unknown provider: nobody''), snd (isCircuitOpen ''nobody'' 5 Map.empty), [])"
proof -
  have h: "\<not> fst (isCircuitOpen ''openai'' 5 Map.empty)"
    and h': "\<not> fst (isCircuitOpen ''nobody'' 5 Map.empty)"
    by (simp_all add: isCircuitOpen_def getCircuitBreaker_def fresh_def)
  have ok: "fst (callLLM ''openai'' 90000 (Response 200 ''hello'') 5 6 Map.empty) = Inr ''hello''"
    by (simp add: gateway_eval)
  have ad: "adapter_of ''openai'' = Some callOpenAI"
    and ab: "callOpenAI (Rejected (JsError ''AbortError'' ''aborted''))
               = Inl (JsError ''AbortError'' ''aborted'')"
    and un: "adapter_of ''nobody'' = None"
    and tr: "\<not> transient_message (''Unknown provider: '' @ ''nobody'')"
    and tm: "string_of_nat 90000 = ''90000''"
    and st: "\<not> response_ok 503" "\<not> response_ok 401"
    by (simp_all add: gateway_eval)
  note g = gateway_bookkeeping [where ?t0.0 = 5 and ?t1.0 = 6 and timeoutMs = 90000
      and reg = Map.empty]
  have 1: "fst (snd (callLLM ''openai'' 90000 (Response 200 ''hello'') 5 6 Map.empty))
        = recordSuccess ''openai'' (snd (isCircuitOpen ''openai'' 5 Map.empty))"
    using g [OF h, where r = "Response 200 ''hello''", THEN conjunct1, rule_format, OF ok] .
  have 2: "callLLM ''openai'' 90000 (Rejected (JsError ''AbortError'' ''aborted'')) 5 6 Map.empty
        = (Inl (Error ''Request timeout after 90000ms''),
           recordFailure ''openai'' 6 (snd (isCircuitOpen ''openai'' 5 Map.empty)), [''openai''])"
    using g [OF h, where r = "Rejected (JsError ''AbortError'' ''aborted'')",
        THEN conjunct2, THEN conjunct1, rule_format,
        of callOpenAI "JsError ''AbortError'' ''aborted''"] ad ab tm
    by simp
  have 3: "fst (snd (callLLM ''openai'' 90000 (Response 503 []) 5 6 Map.empty))
        = recordFailure ''openai'' 6 (snd (isCircuitOpen ''openai'' 5 Map.empty))"
    using g [OF h, where r = "Response 503 []", THEN conjunct2, THEN conjunct2,
        THEN conjunct2, THEN conjunct1, rule_format, of 503 "[]"] st
    by simp
  have 4: "fst (snd (callLLM ''openai'' 90000 (Response 401 []) 5 6 Map.empty))
        = snd (isCircuitOpen ''openai'' 5 Map.empty)"
    using g [OF h, where r = "Response 401 []", THEN conjunct2, THEN conjunct2,
        THEN conjunct2, THEN conjunct1, rule_format, of 401 "[]"] st
    by simp
  have 5: "callLLM ''nobody'' 90000 (Response 200 []) 5 6 Map.empty
        = (Inl (Error ''Unknown provider: nobody''), snd (isCircuitOpen ''nobody'' 5 Map.empty), [])"
    using g [OF h', where r = "Response 200 []", THEN conjunct2, THEN conjunct2,
        THEN conjunct2, THEN conjunct2, rule_format, OF un] tr
    by simp
  show ?thesis
    by (intro conjI h h' ok 1 2 3 4 5)
qed

text \<open>
  Claim C6 as stated fails: HTTP 502 and 504 are 5xx statuses and no breaker failure is
  recorded for them; and an unknown provider whose name contains \<^verbatim>\<open>500\<close> does get a breaker
  failure recorded.
\<close>

theorem any_5xx_counterexample:
  "fst (callLLM ''openai'' 90000 (Response 502 []) 5 6 Map.empty)
      = Inl (Error ''OpenAI error 502'')
   \<and> failures (breaker_of (fst (snd (callLLM ''openai'' 90000 (Response 502 []) 5 6 Map.empty)))
        ''openai'') = 0
   \<and> fst (callLLM ''openrouter'' 90000 (Response 504 []) 5 6 Map.empty)
      = Inl (Error ''OpenRouter error 504'')
   \<and> failures (breaker_of (fst (snd (callLLM ''openrouter'' 90000 (Response 504 []) 5 6 Map.empty)))
        ''openrouter'') = 0
   \<and> failures (breaker_of (fst (snd (callLLM ''openai'' 90000 (Response 503 []) 5 6 Map.empty)))
        ''openai'') = 1
   \<and> adapter_of ''local500'' = None
   \<and> failures (breaker_of (fst (snd (callLLM ''local500'' 90000 (Response 200 []) 5 6 Map.empty)))
        ''local500'') = 1"
  by (simp add: gateway_eval)

section \<open>Properties of the response healer\<close>

lemma try_parse_Some:
  "try_parse parse c = Some d \<longleftrightarrow> parse c = Some d \<and> has_body d"
  by (auto simp add: try_parse_def split: option.splits)

lemma try_parse_body:
  "try_parse parse c = Some d \<Longrightarrow> has_body d"
  by (simp add: try_parse_Some)

lemma run_simps [simp]:
  "fst (attempted c run) = fst run"
  "fst (snd (attempted c run)) = fst (snd run)"
  "snd (snd (attempted c run)) = c # snd (snd run)"
  "fst (logged m run) = fst run"
  "fst (snd (logged m run)) = m # fst (snd run)"
  "snd (snd (logged m run)) = snd (snd run)"
  by (simp_all add: attempted_def logged_def split_beta)

lemma healed_simps [simp]:
  "success (healed d t) = True"
  "data (healed d t) = Some d"
  "error (healed d t) = None"
  "isTruncated (healed d t) = t"
  by (simp_all add: healed_def)

lemma field_extraction_body:
  assumes "success (fst (field_extraction txt v))"
  shows "\<exists>h. h \<noteq> [] \<and> data (fst (field_extraction txt v))
           = Some (JObject
                [(''htmlContent'', JString h),
                 (''title'', JString (the (extractField ''title'' txt))),
                 (''metaDescription'',
                    JString (case extractField ''metaDescription'' txt of None \<Rightarrow> [] | Some m \<Rightarrow> m)),
                 (''slug'', JString []),
                 (''excerpt'', JString []),
                 (''faqs'', JArray []),
                 (''wordCount'', JNumber (of_nat (countWords h)))])"
  using assms
  by (auto simp add: field_extraction_def Let_def split: option.splits if_splits)

lemma field_extraction_sound:
  assumes "success (fst (field_extraction txt v))"
  shows "\<exists>d. data (fst (field_extraction txt v)) = Some d \<and> has_body d"
proof -
  from field_extraction_body [OF assms] obtain h where "h \<noteq> []"
    and "data (fst (field_extraction txt v))
           = Some (JObject
                [(''htmlContent'', JString h),
                 (''title'', JString (the (extractField ''title'' txt))),
                 (''metaDescription'',
                    JString (case extractField ''metaDescription'' txt of None \<Rightarrow> [] | Some m \<Rightarrow> m)),
                 (''slug'', JString []),
                 (''excerpt'', JString []),
                 (''faqs'', JArray []),
                 (''wordCount'', JNumber (of_nat (countWords h)))])"
    by blast
  then show ?thesis
    by (simp add: has_body_def)
qed

lemma heal_from_5_sound:
  assumes "success (fst (heal_from_5 parse txt))"
  shows "\<exists>d. data (fst (heal_from_5 parse txt)) = Some d \<and> has_body d"
proof (cases "wasTruncated (validateResponseCompleteness txt)
    \<and> truncationType (validateResponseCompleteness txt) = TJson")
  case gate: True
  show ?thesis
  proof (cases "try_parse parse (txt @ truncation_closers txt)")
    case None
    with gate assms show ?thesis
      by (simp add: heal_from_5_def Let_def field_extraction_sound)
  next
    case (Some d)
    with gate try_parse_body [OF Some] show ?thesis
      by (simp add: heal_from_5_def Let_def)
  qed
next
  case False
  with assms show ?thesis
    by (auto simp add: heal_from_5_def Let_def field_extraction_sound)
qed

lemma heal_from_4_sound:
  assumes "success (fst (heal_from_4 parse txt))"
  shows "\<exists>d. data (fst (heal_from_4 parse txt)) = Some d \<and> has_body d"
proof (cases "try_parse parse (strip_trailing_commas txt)")
  case None
  with assms show ?thesis
    by (simp add: heal_from_4_def Let_def heal_from_5_sound)
next
  case (Some d)
  with try_parse_body [OF Some] show ?thesis
    by (simp add: heal_from_4_def Let_def)
qed

lemma heal_from_3_sound:
  assumes "success (fst (heal_from_3 parse txt))"
  shows "\<exists>d. data (fst (heal_from_3 parse txt)) = Some d \<and> has_body d"
  using assms
  by (auto simp add: heal_from_3_def heal_from_4_sound dest: try_parse_body split: option.splits)

lemma heal_from_2_sound:
  assumes "success (fst (heal_from_2 parse txt))"
  shows "\<exists>d. data (fst (heal_from_2 parse txt)) = Some d \<and> has_body d"
  using assms
  by (auto simp add: heal_from_2_def heal_from_3_sound dest: try_parse_body split: option.splits)

lemma healJSON_sound:
  assumes "success (fst (healJSON parse rawText))"
  shows "\<exists>d. data (fst (healJSON parse rawText)) = Some d \<and> has_body d"
  using assms
  by (auto simp add: healJSON_def Let_def heal_from_2_sound dest: try_parse_body
      split: option.splits if_splits)

lemma has_body_field:
  "has_body d \<longleftrightarrow> (\<exists>v. field d ''htmlContent'' = Some v \<and> truthy v)"
  by (simp add: has_body_def split: option.splits)

lemma heal_from_5_hit:
  assumes "strategy_5 parse txt = Some d"
  shows "heal_from_5 parse txt
    = (healed d (Some True), [AttemptingToClose, HealedByClosing], [txt @ truncation_closers txt])"
  using assms
  by (simp add: strategy_5_def closing_gate_def heal_from_5_def Let_def split: if_splits)

lemma heal_from_5_miss:
  assumes "strategy_5 parse txt = None"
  shows "fst (heal_from_5 parse txt) = fst (field_extraction txt (validateResponseCompleteness txt))"
    and "snd (snd (heal_from_5 parse txt))
           = (if closing_gate txt then [txt @ truncation_closers txt] else [])"
    and "fst (snd (heal_from_5 parse txt))
           = (if closing_gate txt then [AttemptingToClose] else [])
             @ fst (snd (field_extraction txt (validateResponseCompleteness txt)))"
  using assms
  by (auto simp add: strategy_5_def closing_gate_def heal_from_5_def Let_def
      field_extraction_def split: if_splits option.splits)


lemma heal_from_4_miss:
  assumes "strategy_4 parse txt = None"
  shows "heal_from_4 parse txt = attempted (strip_trailing_commas txt) (heal_from_5 parse txt)"
  using assms by (simp add: strategy_4_def heal_from_4_def Let_def)


lemma heal_from_3_miss:
  assumes "strategy_3 parse txt = None"
  shows "fst (heal_from_3 parse txt) = fst (heal_from_4 parse txt)"
    and "fst (snd (heal_from_3 parse txt)) = fst (snd (heal_from_4 parse txt))"
    and "snd (snd (heal_from_3 parse txt))
           = (case boundary_slice txt of None \<Rightarrow> [] | Some c \<Rightarrow> [c])
             @ snd (snd (heal_from_4 parse txt))"
  using assms by (auto simp add: strategy_3_def heal_from_3_def split: option.splits)


lemma heal_from_2_miss:
  assumes "strategy_2 parse txt = None"
  shows "fst (heal_from_2 parse txt) = fst (heal_from_3 parse txt)"
    and "fst (snd (heal_from_2 parse txt)) = fst (snd (heal_from_3 parse txt))"
    and "snd (snd (heal_from_2 parse txt))
           = (case fence_capture txt of None \<Rightarrow> [] | Some c \<Rightarrow> [trim c])
             @ snd (snd (heal_from_3 parse txt))"
  using assms by (auto simp add: strategy_2_def heal_from_2_def split: option.splits)


lemma healJSON_miss:
  assumes "trim rawText \<noteq> []" and "strategy_1 parse (trim rawText) = None"
  shows "healJSON parse rawText = attempted (trim rawText) (heal_from_2 parse (trim rawText))"
  using assms by (simp add: strategy_1_def healJSON_def Let_def)













lemmas heal_eval =
  healJSON_def heal_from_2_def heal_from_3_def heal_from_4_def heal_from_5_def
  field_extraction_def attempted_def logged_def healed_def try_parse_def has_body_def
  validateResponseCompleteness_def trim_def is_space_def fence_capture_def
  boundary_slice_def lastIndexOf_def before_closer_def truncation_closers_def
  match_field_at_def example_parse_def fenced_response_def truncated_response_def
  truncated_in_array_def strategy_1_def strategy_2_def strategy_3_def strategy_4_def
  strategy_5_def strategy_6_def closing_gate_def nested_closers_def Let_def

lemma example_fenced:
  "healJSON example_parse fenced_response
     = (healed (JObject [(''htmlContent'', JString ''<p>Hello</p>''), (''title'', JString ''T'')])
          None,
        [ExtractedFromMarkdown],
        [fenced_response, ''{\"htmlContent\":\"<p>Hello</p>\",\"title\":\"T\"}''])"
  by (simp add: heal_eval)

lemma example_truncated:
  "healJSON example_parse truncated_response
     = (healed (JObject [(''htmlContent'', JString ''<p>x</p>''),
                    (''meta'', JObject [(''tags'', JArray [JString ''a''])])])
          (Some True),
        [AttemptingToClose, HealedByClosing],
        [truncated_response, truncated_response, truncated_response @ '']}}''])"
  by (simp add: heal_eval)

lemma example_truncated_in_array:
  "fst (healJSON example_parse truncated_in_array)
     = \<lparr>success = False, data = None,
         error = Some (''JSON parse failed. Preview: '' @ truncated_in_array @ ''...''),
         isTruncated = Some True\<rparr>"
  by (simp add: heal_eval)

lemma example_plain:
  "healJSON example_parse ''I cannot help with that.''
     = (\<lparr>success = False, data = None,
          error = Some ''JSON parse failed. Preview: I cannot help with that....'',
          isTruncated = Some True\<rparr>,
        [AttemptingFieldExtraction],
        [''I cannot help with that.'', ''I cannot help with that.''])"
  by (auto simp add: heal_eval)


lemmas heal_examples_eval =
  heal_eval tagged_fence_response_def trailing_comma_response_def fields_only_response_def
  array_body_parse_def



text \<open>
  Claim C8, as amended. When strategies 1 to 4 have failed and the completeness check
  reports a structural truncation, the healer appends to the trimmed text as many closing
  brackets as the text has more \<^verbatim>\<open>[\<close> than \<^verbatim>\<open>]\<close>, followed by as many closing braces as it has
  more \<^verbatim>\<open>{\<close> than \<^verbatim>\<open>}\<close> (all brackets before all braces, whatever the nesting), and parses the
  result; when that parses and has a body, the healer succeeds with it, flagged
  \<open>isTruncated = true\<close>.
\<close>

theorem truncation_closing:
  assumes "txt = trim rawText" and "txt \<noteq> []"
    and "strategy_1 parse txt = None" and "strategy_2 parse txt = None"
    and "strategy_3 parse txt = None" and "strategy_4 parse txt = None"
    and "closing_gate txt"
  shows "truncation_closers txt
           = replicate (count_list txt CHR ''['' - count_list txt CHR '']'') CHR '']''
             @ replicate (count_list txt CHR ''{'' - count_list txt CHR ''}'') CHR ''}''
       \<and> last (snd (snd (healJSON parse rawText))) = txt @ truncation_closers txt
       \<and> (try_parse parse (txt @ truncation_closers txt) = Some d \<longrightarrow>
              fst (healJSON parse rawText)
                = \<lparr>success = True, data = Some d, error = None, isTruncated = Some True\<rparr>
            \<and> fst (snd (healJSON parse rawText)) = [AttemptingToClose, HealedByClosing])"
proof -
  have ne: "trim rawText \<noteq> []"
    using assms(1,2) by simp
  have m: "healJSON parse rawText = attempted txt (heal_from_2 parse txt)"
    using healJSON_miss [OF ne, of parse] assms(1,3) by simp
  have l: "last (snd (snd (healJSON parse rawText))) = txt @ truncation_closers txt"
  proof (cases "strategy_5 parse txt")
    case None
    with assms(4-7) show ?thesis
      by (auto simp add: m heal_from_2_miss heal_from_3_miss heal_from_4_miss
          heal_from_5_miss split: option.splits)
  next
    case (Some x)
    with assms(4-7) show ?thesis
      by (auto simp add: m heal_from_2_miss heal_from_3_miss heal_from_4_miss
          heal_from_5_hit split: option.splits)
  qed
  have s: "fst (healJSON parse rawText)
        = \<lparr>success = True, data = Some d, error = None, isTruncated = Some True\<rparr>
      \<and> fst (snd (healJSON parse rawText)) = [AttemptingToClose, HealedByClosing]"
    if "try_parse parse (txt @ truncation_closers txt) = Some d"
  proof -
    from that assms(7) have "strategy_5 parse txt = Some d"
      by (simp add: strategy_5_def)
    with assms(4-6) show ?thesis
      by (simp add: m heal_from_2_miss heal_from_3_miss heal_from_4_miss heal_from_5_hit
          healed_def)
  qed
  from l s show ?thesis
    by (simp add: truncation_closers_def)
qed

theorem truncation_closing_witness:
  "truncated_response = trim truncated_response \<and> truncated_response \<noteq> []
   \<and> strategy_1 example_parse truncated_response = None
   \<and> strategy_2 example_parse truncated_response = None
   \<and> strategy_3 example_parse truncated_response = None
   \<and> strategy_4 example_parse truncated_response = None
   \<and> closing_gate truncated_response
   \<and> truncation_closers truncated_response = '']}}''
   \<and> nested_closers truncated_response = '']}}''
   \<and> try_parse example_parse (truncated_response @ truncation_closers truncated_response)
        = Some (JObject [(''htmlContent'', JString ''<p>x</p>''),
                    (''meta'', JObject [(''tags'', JArray [JString ''a''])])])
   \<and> fst (healJSON example_parse truncated_response)
        = \<lparr>success = True,
            data = Some (JObject [(''htmlContent'', JString ''<p>x</p>''),
                    (''meta'', JObject [(''tags'', JArray [JString ''a''])])]),
            error = None, isTruncated = Some True\<rparr>"
proof -
  have t: "truncated_response = trim truncated_response" "truncated_response \<noteq> []"
      "strategy_1 example_parse truncated_response = None"
      "strategy_2 example_parse truncated_response = None"
      "strategy_3 example_parse truncated_response = None"
      "strategy_4 example_parse truncated_response = None"
      "closing_gate truncated_response"
    and c: "truncation_closers truncated_response = '']}}''"
      "nested_closers truncated_response = '']}}''"
    and q: "try_parse example_parse (truncated_response @ truncation_closers truncated_response)
        = Some (JObject [(''htmlContent'', JString ''<p>x</p>''),
                    (''meta'', JObject [(''tags'', JArray [JString ''a''])])])"
    by (simp_all add: heal_eval)
  have r: "fst (healJSON example_parse truncated_response)
        = \<lparr>success = True,
            data = Some (JObject [(''htmlContent'', JString ''<p>x</p>''),
                    (''meta'', JObject [(''tags'', JArray [JString ''a''])])]),
            error = None, isTruncated = Some True\<rparr>"
    using truncation_closing [OF t, THEN conjunct2, THEN conjunct2] q by blast
  show ?thesis
    by (intro conjI t c q r)
qed

text \<open>
  Claim C8 as stated fails: the closers are not appended in nesting order. A response cut
  inside an object inside an array inside the top object misses two braces and one bracket;
  the healer appends \<^verbatim>\<open>]}}\<close> where the nesting asks for \<^verbatim>\<open>}]}\<close>. The text closed in nesting order
  parses, the text the healer builds does not, and the healer ends in failure.
\<close>

theorem nesting_order_counterexample:
  "closing_gate truncated_in_array
   \<and> count_list truncated_in_array CHR ''{'' - count_list truncated_in_array CHR ''}'' = 2
   \<and> count_list truncated_in_array CHR ''['' - count_list truncated_in_array CHR '']'' = 1
   \<and> truncation_closers truncated_in_array = '']}}''
   \<and> nested_closers truncated_in_array = ''}]}''
   \<and> example_parse (truncated_in_array @ nested_closers truncated_in_array)
        = Some (JObject [(''htmlContent'', JString ''<p>x</p>''),
                    (''faqs'', JArray [JObject [(''question'', JString ''q'')]])])
   \<and> example_parse (truncated_in_array @ truncation_closers truncated_in_array) = None
   \<and> truncated_in_array @ truncation_closers truncated_in_array
        \<in> set (snd (snd (healJSON example_parse truncated_in_array)))
   \<and> \<not> success (fst (healJSON example_parse truncated_in_array))"
  by (simp add: heal_eval)

text \<open>
  Claim C10, as amended. Whenever the healer reports success, its data has an
  \<^verbatim>\<open>htmlContent\<close> field whose value is truthy: it is present, it is not \<^verbatim>\<open>null\<close>, and when it
  is a string it is not the empty string.
\<close>

theorem healed_body_present:
  "success (fst (healJSON parse rawText)) \<longrightarrow>
     (\<exists>parsed v. data (fst (healJSON parse rawText)) = Some parsed
        \<and> field parsed ''htmlContent'' = Some v \<and> truthy v
        \<and> v \<noteq> JNull \<and> (\<forall>s. v = JString s \<longrightarrow> s \<noteq> []))"
proof
  assume "success (fst (healJSON parse rawText))"
  then obtain parsed where d: "data (fst (healJSON parse rawText)) = Some parsed"
    and "has_body parsed"
    using healJSON_sound by blast
  then obtain v where "field parsed ''htmlContent'' = Some v" and "truthy v"
    by (auto simp add: has_body_field)
  moreover from \<open>truthy v\<close> have "v \<noteq> JNull" and "\<forall>s. v = JString s \<longrightarrow> s \<noteq> []"
    by auto
  ultimately show "\<exists>parsed v. data (fst (healJSON parse rawText)) = Some parsed
        \<and> field parsed ''htmlContent'' = Some v \<and> truthy v
        \<and> v \<noteq> JNull \<and> (\<forall>s. v = JString s \<longrightarrow> s \<noteq> [])"
    using d by blast
qed

theorem healed_body_present_witness:
  "success (fst (healJSON example_parse fenced_response))
   \<and> (\<exists>parsed v. data (fst (healJSON example_parse fenced_response)) = Some parsed
        \<and> field parsed ''htmlContent'' = Some v \<and> truthy v
        \<and> v \<noteq> JNull \<and> (\<forall>s. v = JString s \<longrightarrow> s \<noteq> []))
   \<and> field (the (data (fst (healJSON example_parse fenced_response)))) ''htmlContent''
        = Some (JString ''<p>Hello</p>'')"
proof -
  have s: "success (fst (healJSON example_parse fenced_response))"
    and f: "field (the (data (fst (healJSON example_parse fenced_response)))) ''htmlContent''
        = Some (JString ''<p>Hello</p>'')"
    by (simp_all add: example_fenced)
  from healed_body_present [of example_parse fenced_response] s
  have e: "\<exists>parsed v. data (fst (healJSON example_parse fenced_response)) = Some parsed
        \<and> field parsed ''htmlContent'' = Some v \<and> truthy v
        \<and> v \<noteq> JNull \<and> (\<forall>s. v = JString s \<longrightarrow> s \<noteq> [])"
    by (rule mp)
  show ?thesis
    by (intro conjI s e f)
qed

text \<open>
  Claim C10 as stated fails: a successful heal can carry an empty body. The test of every
  strategy is the truthiness of \<^verbatim>\<open>htmlContent\<close>, and an empty array is truthy: the response
  \<^verbatim>\<open>{"htmlContent":[]}\<close> is returned by strategy 1 with success.
\<close>

theorem empty_array_body_counterexample:
  "array_body_parse ''{\"htmlContent\":[]}'' = Some (JObject [(''htmlContent'', JArray [])])
   \<and> success (fst (healJSON array_body_parse ''{\"htmlContent\":[]}''))
   \<and> data (fst (healJSON array_body_parse ''{\"htmlContent\":[]}''))
       = Some (JObject [(''htmlContent'', JArray [])])
   \<and> field (the (data (fst (healJSON array_body_parse ''{\"htmlContent\":[]}''))))
         ''htmlContent'' = Some (JArray [])
   \<and> fst (snd (healJSON array_body_parse ''{\"htmlContent\":[]}'')) = [ParsedDirectly]"
  by (simp add: heal_examples_eval)

end
